theory Spec2Isabelle
  imports Complex_Main "HOL-Library.AList"
begin

section \<open>Room state of the polling server (netlify/functions/sync.js)\<close>

text \<open>
  The model follows the player-management version of \<^verbatim>\<open>netlify/functions/sync.js\<close>
  (the second \<^verbatim>\<open>class Room\<close> of the file and its \<^verbatim>\<open>exports.handler\<close>). The first
  version of the file is the same code without the \<^verbatim>\<open>players\<close> map.

  A JavaScript \<^verbatim>\<open>Date\<close> is its time value: milliseconds since the epoch, an integer.
  Every function that reads the clock takes the reading as its argument \<open>now\<close>; one
  request is served within one reading. \<^verbatim>\<open>Math.random()\<close> is the argument \<open>rnd\<close>.
  The \<open>msg_id\<close> of a message is the sum \<^verbatim>\<open>Date.now() + Math.random()\<close> before it is
  rounded to a double; no function reads it.
\<close>

type_synonym time = int
type_synonym session_id = string

subsection \<open>JavaScript \<^verbatim>\<open>Map\<close>\<close>

text \<open>
  A \<^verbatim>\<open>Map\<close> iterates in insertion order, \<^verbatim>\<open>set\<close> on a present key keeps the key's
  position and \<^verbatim>\<open>set\<close> on an absent key appends: an association list with
  \<^const>\<open>AList.update\<close> and \<^const>\<open>AList.delete\<close>.
\<close>

type_synonym ('k, 'v) js_map = "('k \<times> 'v) list"

abbreviation map_set :: "'k \<Rightarrow> 'v \<Rightarrow> ('k, 'v) js_map \<Rightarrow> ('k, 'v) js_map" where
  "map_set \<equiv> AList.update"

abbreviation map_delete :: "'k \<Rightarrow> ('k, 'v) js_map \<Rightarrow> ('k, 'v) js_map" where
  "map_delete \<equiv> AList.delete"

abbreviation map_get :: "('k, 'v) js_map \<Rightarrow> 'k \<Rightarrow> 'v option" where
  "map_get \<equiv> map_of"


abbreviation map_values :: "('k, 'v) js_map \<Rightarrow> 'v list" where
  "map_values m \<equiv> map snd m"

abbreviation map_size :: "('k, 'v) js_map \<Rightarrow> nat" where
  "map_size m \<equiv> length m"

subsection \<open>Records of a room\<close>

record participant =
  sessionId :: session_id
  userAgent :: string
  ip :: string
  joinedAt :: time
  lastSeen :: time

text \<open>
  A player object of a request. \<open>isActive\<close> is the truthiness of its \<^verbatim>\<open>isActive\<close>
  property, \<open>length_prop\<close> its own \<^verbatim>\<open>length\<close> property when it has one that is a
  number (player objects sent by the client have none), \<open>attrs\<close> the other properties
  the caller supplied. \<open>player_sessionId\<close> and \<open>lastUpdated\<close> are absent until
  \<^verbatim>\<open>updatePlayerData\<close> stamps them.
\<close>

record player =
  attrs :: "(string \<times> string) list"
  length_prop :: "int option"
  player_sessionId :: "session_id option"
  isActive :: bool
  lastUpdated :: "time option"

record timer =
  isRunning :: bool
  remainingTime :: int
  duration :: int
  startTime :: "time option"
  lastUpdatedBy :: "session_id option"
  lastUpdatedAt :: "time option"

datatype payload =
    DiceRoll "int list option"
  | TimerSync timer
  | PlayersUpdate "player list"

record message =
  payload :: payload
  fromSession :: session_id
  timestamp :: time
  msg_id :: real

record room =
  room_id :: string
  participants :: "(session_id, participant) js_map"
  currentDiceValues :: "int list option"
  timerState :: timer
  players :: "(session_id, player list) js_map"
  messages :: "message list"
  createdAt :: time
  lastActivity :: time

subsection \<open>class Room\<close>

definition new_Room :: "time \<Rightarrow> string \<Rightarrow> room" where
  "new_Room now rid =
     \<lparr> room_id = rid,
       participants = [],
       currentDiceValues = None,
       timerState = \<lparr> isRunning = False, remainingTime = 0, duration = 60,
                      startTime = None, lastUpdatedBy = None, lastUpdatedAt = None \<rparr>,
       players = [],
       messages = [],
       createdAt = now,
       lastActivity = now \<rparr>"

definition addParticipant :: "time \<Rightarrow> session_id \<Rightarrow> string \<Rightarrow> string \<Rightarrow> room \<Rightarrow> room" where
  "addParticipant now sid ua addr r =
     r\<lparr> participants :=
          map_set sid \<lparr> sessionId = sid, userAgent = ua, ip = addr,
                        joinedAt = now, lastSeen = now \<rparr> (participants r),
        lastActivity := now \<rparr>"

definition removeParticipant :: "time \<Rightarrow> session_id \<Rightarrow> room \<Rightarrow> room" where
  "removeParticipant now sid r =
     r\<lparr> participants := map_delete sid (participants r),
        players := map_delete sid (players r),
        lastActivity := now \<rparr>"

text \<open>\<^verbatim>\<open>slice(-n)\<close>: the last \<open>n\<close> elements, all of them when there are fewer.\<close>

definition slice_last :: "nat \<Rightarrow> 'a list \<Rightarrow> 'a list" where
  "slice_last n xs = drop (length xs - n) xs"

definition addMessage :: "time \<Rightarrow> real \<Rightarrow> payload \<Rightarrow> session_id \<Rightarrow> room \<Rightarrow> room" where
  "addMessage now rnd pl from r =
     (let pushed = messages r @
            [\<lparr> payload = pl, fromSession = from, timestamp = now,
               msg_id = real_of_int now + rnd \<rparr>]
      in r\<lparr> messages := (if length pushed > 50 then slice_last 50 pushed else pushed),
            lastActivity := now \<rparr>)"

text \<open>
  \<^verbatim>\<open>getParticipantCount\<close> walks the participants and deletes, from both maps, every
  session last seen before \<open>now - 5 * 60 * 1000\<close>. Deleting the entry under the cursor
  of a \<^verbatim>\<open>Map\<close> iteration leaves the other entries to be visited, so the loop runs over
  the entries the map held when it started.
\<close>

fun purge_loop :: "time \<Rightarrow> (session_id \<times> participant) list \<Rightarrow> room \<Rightarrow> room" where
  "purge_loop fiveMinutesAgo [] r = r"
| "purge_loop fiveMinutesAgo ((sid, p) # rest) r =
     purge_loop fiveMinutesAgo rest
       (if lastSeen p < fiveMinutesAgo
        then r\<lparr> participants := map_delete sid (participants r),
                players := map_delete sid (players r) \<rparr>
        else r)"

definition getParticipantCount :: "time \<Rightarrow> room \<Rightarrow> nat \<times> room" where
  "getParticipantCount now r =
     (let fiveMinutesAgo = now - 5 * 60 * 1000;
          r' = purge_loop fiveMinutesAgo (participants r) r
      in (map_size (participants r'), r'))"

definition updateParticipant :: "time \<Rightarrow> session_id \<Rightarrow> room \<Rightarrow> room" where
  "updateParticipant now sid r =
     (case map_get (participants r) sid of
        None \<Rightarrow> r
      | Some p \<Rightarrow>
          r\<lparr> participants := map_set sid (p\<lparr> lastSeen := now \<rparr>) (participants r),
             lastActivity := now \<rparr>)"

text \<open>
  The \<^verbatim>\<open>since\<close> field of a poll request: \<^verbatim>\<open>null\<close> (or absent), a number of
  milliseconds, or the ISO string that \<^verbatim>\<open>toISOString\<close> gives for a time value (what the
  server hands out as the watermark and the client sends back). \<^verbatim>\<open>!since\<close> holds for
  \<^verbatim>\<open>null\<close> and for the number 0; \<^verbatim>\<open>new Date(since)\<close> is an invalid date beyond the
  range of time values, and every comparison with an invalid date is false.
\<close>

datatype since_arg = SinceNull | SinceNum int | SinceIso time

fun falsy :: "since_arg \<Rightarrow> bool" where
  "falsy SinceNull = True"
| "falsy (SinceNum n) = (n = 0)"
| "falsy (SinceIso t) = False"

definition timeClip :: "int \<Rightarrow> time option" where
  "timeClip t = (if \<bar>t\<bar> \<le> 8640000000000000 then Some t else None)"

fun new_Date :: "since_arg \<Rightarrow> time option" where
  "new_Date SinceNull = Some 0"
| "new_Date (SinceNum n) = timeClip n"
| "new_Date (SinceIso t) = timeClip t"

definition getRecentMessages :: "since_arg \<Rightarrow> room \<Rightarrow> message list" where
  "getRecentMessages since r =
     (if falsy since then slice_last 10 (messages r)
      else case new_Date since of
             None \<Rightarrow> []
           | Some sinceDate \<Rightarrow> filter (\<lambda>msg. timestamp msg > sinceDate) (messages r))"

definition isEmpty :: "time \<Rightarrow> room \<Rightarrow> bool \<times> room" where
  "isEmpty now r = (let (n, r') = getParticipantCount now r in (n = 0, r'))"

definition isExpired :: "time \<Rightarrow> room \<Rightarrow> bool" where
  "isExpired now r = (lastActivity r < now - 60 * 60 * 1000)"

subsection \<open>Players\<close>

text \<open>
  The second argument of \<^verbatim>\<open>updatePlayerData\<close> is whatever the caller passes: an array of
  player objects, one player object, or \<^verbatim>\<open>null\<close>/\<^verbatim>\<open>undefined\<close>. The guard
  \<^verbatim>\<open>playersArray && playersArray.length > 0\<close> reads the array's length, or the object's
  own \<^verbatim>\<open>length\<close> property (\<^verbatim>\<open>undefined > 0\<close> is false). An object that passes the
  guard has no \<^verbatim>\<open>map\<close> method: the call throws a \<^verbatim>\<open>TypeError\<close> after the session's
  entry was deleted and before \<^verbatim>\<open>lastActivity\<close> is set.
\<close>

datatype players_arg = PlayersArray "player list" | PlayerObject player | PlayersNull

datatype js_error = TypeError

fun nonempty_guard :: "players_arg \<Rightarrow> bool" where
  "nonempty_guard (PlayersArray ps) = (length ps > 0)"
| "nonempty_guard (PlayerObject p) = (case length_prop p of None \<Rightarrow> False | Some n \<Rightarrow> n > 0)"
| "nonempty_guard PlayersNull = False"

definition getPlayerData :: "room \<Rightarrow> player list" where
  "getPlayerData r = concat (map_values (players r))"

definition getActivePlayerCount :: "room \<Rightarrow> nat" where
  "getActivePlayerCount r = length (filter isActive (getPlayerData r))"

definition updatePlayerData ::
  "time \<Rightarrow> session_id \<Rightarrow> players_arg \<Rightarrow> room \<Rightarrow> js_error option \<times> room" where
  "updatePlayerData now sid playersArray r =
     (let r1 = r\<lparr> players := map_delete sid (players r) \<rparr> in
      if nonempty_guard playersArray then
        (let activePlayersFromOtherSessions =
               length (filter isActive (concat (map_values (players r1))))
         in case playersArray of
              PlayersArray ps \<Rightarrow>
                (let updatedPlayers =
                       map (\<lambda>playerData.
                              playerData\<lparr> player_sessionId := Some sid,
                                          isActive := (activePlayersFromOtherSessions < 4
                                                       \<or> isActive playerData),
                                          lastUpdated := Some now \<rparr>) ps
                 in (None, r1\<lparr> players := map_set sid updatedPlayers (players r1),
                                lastActivity := now \<rparr>))
            | _ \<Rightarrow> (Some TypeError, r1))
      else (None, r1\<lparr> lastActivity := now \<rparr>))"

section \<open>The endpoints of exports.handler\<close>

text \<open>
  Each function is the body of one endpoint once \<^verbatim>\<open>rooms.get(roomId)\<close> has found the
  room: it returns the response and the room as the request leaves it. The properties of
  a response object are evaluated in the order they are written, and
  \<^verbatim>\<open>getParticipantCount\<close> among them purges the room.
\<close>

record poll_response =
  resp_messages :: "message list"
  resp_participantCount :: nat
  resp_activePlayerCount :: nat
  resp_currentDiceValues :: "int list option"
  resp_timerState :: timer
  resp_players :: "player list"
  resp_timestamp :: time

datatype response =
    Created session_id nat nat
  | Joined session_id nat nat "int list option" timer "player list"
  | Synced nat
  | PlayersSynced nat nat "player list"
  | Polled poll_response
  | LeftRoom
  | RoomInfo string nat nat timer "player list" time time
  | InternalError

definition handle_join_room ::
  "time \<Rightarrow> session_id \<Rightarrow> string \<Rightarrow> string \<Rightarrow> room \<Rightarrow> response \<times> room" where
  "handle_join_room now sid ua addr r =
     (let r1 = addParticipant now sid ua addr r;
          (n, r2) = getParticipantCount now r1
      in (Joined sid n (getActivePlayerCount r2) (currentDiceValues r2) (timerState r2)
            (getPlayerData r2), r2))"

definition handle_create_room ::
  "time \<Rightarrow> string \<Rightarrow> session_id \<Rightarrow> string \<Rightarrow> string \<Rightarrow> response \<times> room" where
  "handle_create_room now rid sid ua addr =
     (let r1 = addParticipant now sid ua addr (new_Room now rid);
          (n, r2) = getParticipantCount now r1
      in (Created sid n (getActivePlayerCount r2), r2))"

text \<open>
  The \<^verbatim>\<open>/sync-players\<close> endpoint of the handler passes every element of the request's
  array to \<^verbatim>\<open>updatePlayerData\<close> on its own. \<^verbatim>\<open>room.players.get(sessionId)\<close> is an array,
  whose \<^verbatim>\<open>isActive\<close> is \<^verbatim>\<open>undefined\<close>. An exception leaves \<^verbatim>\<open>forEach\<close> at once and the
  handler answers 500.
\<close>

definition array_isActive :: "player list \<Rightarrow> bool" where
  "array_isActive ps = False"

fun forEach_player ::
  "time \<Rightarrow> session_id \<Rightarrow> player list \<Rightarrow> room \<Rightarrow> js_error option \<times> room" where
  "forEach_player now sid [] r = (None, r)"
| "forEach_player now sid (playerData # rest) r =
     (let playerWithSession =
            playerData\<lparr> player_sessionId := Some sid,
                        isActive :=
                          (getActivePlayerCount r < 4 \<or>
                           (case map_get (players r) sid of
                              None \<Rightarrow> False
                            | Some ps \<Rightarrow> array_isActive ps)) \<rparr>
      in case updatePlayerData now sid (PlayerObject playerWithSession) r of
           (Some e, r') \<Rightarrow> (Some e, r')
         | (None, r') \<Rightarrow> forEach_player now sid rest r')"

definition handle_sync_players ::
  "time \<Rightarrow> real \<Rightarrow> session_id \<Rightarrow> players_arg \<Rightarrow> room \<Rightarrow> response \<times> room" where
  "handle_sync_players now rnd sid body_players r =
     (let r1 = updateParticipant now sid r in
      case body_players of
        PlayersArray ps \<Rightarrow>
          (case forEach_player now sid ps r1 of
             (Some e, r2) \<Rightarrow> (InternalError, r2)
           | (None, r2) \<Rightarrow>
               (let r3 = addMessage now rnd (PlayersUpdate (getPlayerData r2)) sid r2;
                    (n, r4) = getParticipantCount now r3
                in (PlayersSynced n (getActivePlayerCount r4) (getPlayerData r4), r4)))
      | _ \<Rightarrow> (InternalError, r1))"

text \<open>
  The other \<^verbatim>\<open>/sync-players\<close> body of the file (the one after
  \<^verbatim>\<open>// Im sync-players Endpoint:\<close>) passes the request's array as it is.
\<close>

definition sync_players_endpoint ::
  "time \<Rightarrow> real \<Rightarrow> session_id \<Rightarrow> players_arg \<Rightarrow> room \<Rightarrow> response \<times> room" where
  "sync_players_endpoint now rnd sid body_players r =
     (let r1 = updateParticipant now sid r in
      case updatePlayerData now sid body_players r1 of
        (Some e, r2) \<Rightarrow> (InternalError, r2)
      | (None, r2) \<Rightarrow>
          (let r3 = addMessage now rnd (PlayersUpdate (getPlayerData r2)) sid r2;
               (n, r4) = getParticipantCount now r3
           in (PlayersSynced n (getActivePlayerCount r4) (getPlayerData r4), r4)))"

definition handle_sync_dice ::
  "time \<Rightarrow> real \<Rightarrow> session_id \<Rightarrow> int list option \<Rightarrow> room \<Rightarrow> response \<times> room" where
  "handle_sync_dice now rnd sid diceValues r =
     (let r1 = updateParticipant now sid r;
          r2 = r1\<lparr> currentDiceValues := diceValues \<rparr>;
          r3 = addMessage now rnd (DiceRoll diceValues) sid r2;
          (n, r4) = getParticipantCount now r3
      in (Synced n, r4))"

definition handle_sync_timer ::
  "time \<Rightarrow> real \<Rightarrow> session_id \<Rightarrow> timer \<Rightarrow> room \<Rightarrow> response \<times> room" where
  "handle_sync_timer now rnd sid body_timerState r =
     (let r1 = updateParticipant now sid r;
          r2 = r1\<lparr> timerState := body_timerState\<lparr> lastUpdatedBy := Some sid,
                                                  lastUpdatedAt := Some now \<rparr> \<rparr>;
          r3 = addMessage now rnd (TimerSync (timerState r2)) sid r2;
          (n, r4) = getParticipantCount now r3
      in (Synced n, r4))"

definition handle_poll ::
  "time \<Rightarrow> session_id \<Rightarrow> since_arg \<Rightarrow> room \<Rightarrow> response \<times> room" where
  "handle_poll now sid since r =
     (let r1 = updateParticipant now sid r;
          msgs = getRecentMessages since r1;
          filteredMessages = filter (\<lambda>msg. fromSession msg \<noteq> sid) msgs;
          (n, r2) = getParticipantCount now r1
      in (Polled \<lparr> resp_messages = filteredMessages,
                   resp_participantCount = n,
                   resp_activePlayerCount = getActivePlayerCount r2,
                   resp_currentDiceValues = currentDiceValues r2,
                   resp_timerState = timerState r2,
                   resp_players = getPlayerData r2,
                   resp_timestamp = now \<rparr>, r2))"

text \<open>
  \<^verbatim>\<open>/leave-room\<close> also says whether the room was empty afterwards, in which case the
  handler deletes it from \<^verbatim>\<open>rooms\<close>.
\<close>

definition handle_leave_room ::
  "time \<Rightarrow> real \<Rightarrow> session_id \<Rightarrow> room \<Rightarrow> response \<times> room \<times> bool" where
  "handle_leave_room now rnd sid r =
     (let r1 = removeParticipant now sid r;
          r2 = addMessage now rnd (PlayersUpdate (getPlayerData r1)) sid r1;
          (empty, r3) = isEmpty now r2
      in (LeftRoom, r3, empty))"

definition handle_room_info :: "time \<Rightarrow> room \<Rightarrow> response \<times> room" where
  "handle_room_info now r =
     (let (n, r1) = getParticipantCount now r
      in (RoomInfo (room_id r1) n (getActivePlayerCount r1) (timerState r1) (getPlayerData r1)
            (createdAt r1) (lastActivity r1), r1))"

text \<open>
  A request that reaches an existing room, and a room after a sequence of requests.
  \<open>Sweep\<close> is \<^verbatim>\<open>cleanupRooms\<close> coming by: it calls \<^verbatim>\<open>isEmpty\<close>, which purges the room.
  The sequence follows the room also past a request after which the handler or the sweep
  would delete it from \<^verbatim>\<open>rooms\<close>.
\<close>

datatype request =
    JoinRoom session_id string string
  | SyncPlayers real session_id players_arg
  | SyncDice real session_id "int list option"
  | SyncTimer real session_id timer
  | Poll session_id since_arg
  | LeaveRoom real session_id
  | GetRoomInfo
  | Sweep

fun serve :: "time \<times> request \<Rightarrow> room \<Rightarrow> room" where
  "serve (now, JoinRoom sid ua addr) r = snd (handle_join_room now sid ua addr r)"
| "serve (now, SyncPlayers rnd sid ps) r = snd (handle_sync_players now rnd sid ps r)"
| "serve (now, SyncDice rnd sid dv) r = snd (handle_sync_dice now rnd sid dv r)"
| "serve (now, SyncTimer rnd sid ts) r = snd (handle_sync_timer now rnd sid ts r)"
| "serve (now, Poll sid since) r = snd (handle_poll now sid since r)"
| "serve (now, LeaveRoom rnd sid) r = fst (snd (handle_leave_room now rnd sid r))"
| "serve (now, GetRoomInfo) r = snd (handle_room_info now r)"
| "serve (now, Sweep) r = snd (isEmpty now r)"

definition serve_all :: "(time \<times> request) list \<Rightarrow> room \<Rightarrow> room" where
  "serve_all reqs r = fold serve reqs r"

definition room_after ::
  "time \<Rightarrow> string \<Rightarrow> session_id \<Rightarrow> string \<Rightarrow> string \<Rightarrow> (time \<times> request) list \<Rightarrow> room" where
  "room_after t0 rid sid0 ua addr reqs =
     serve_all reqs (snd (handle_create_room t0 rid sid0 ua addr))"

section \<open>Sessions of a join/leave history, as the specification counts them\<close>

text \<open>
  The specification's reading of a history of joins and leaves, for comparison with the
  room: creating or joining records the session with the time of the request as its
  \<open>lastSeen\<close>, leaving removes it, and the live sessions at a time are those whose
  \<open>lastSeen\<close> is at most five minutes back.
\<close>

fun spec_step :: "time \<times> request \<Rightarrow> (session_id \<times> time) list \<Rightarrow> (session_id \<times> time) list" where
  "spec_step (t, JoinRoom sid ua addr) ss = map_set sid t ss"
| "spec_step (t, LeaveRoom rnd sid) ss = map_delete sid ss"
| "spec_step (t, SyncPlayers rnd sid ps) ss = ss"
| "spec_step (t, SyncDice rnd sid dv) ss = ss"
| "spec_step (t, SyncTimer rnd sid ts) ss = ss"
| "spec_step (t, Poll sid since) ss = ss"
| "spec_step (t, GetRoomInfo) ss = ss"
| "spec_step (t, Sweep) ss = ss"

definition spec_sessions ::
  "time \<Rightarrow> session_id \<Rightarrow> (time \<times> request) list \<Rightarrow> (session_id \<times> time) list" where
  "spec_sessions t0 sid0 reqs = fold spec_step reqs [(sid0, t0)]"

definition spec_live_count :: "time \<Rightarrow> (session_id \<times> time) list \<Rightarrow> nat" where
  "spec_live_count now ss = length (filter (\<lambda>(sid, seen). now - seen \<le> 5 * 60 * 1000) ss)"

fun join_or_leave :: "request \<Rightarrow> bool" where
  "join_or_leave (JoinRoom sid ua addr) = True"
| "join_or_leave (LeaveRoom rnd sid) = True"
| "join_or_leave (SyncPlayers rnd sid ps) = False"
| "join_or_leave (SyncDice rnd sid dv) = False"
| "join_or_leave (SyncTimer rnd sid ts) = False"
| "join_or_leave (Poll sid since) = False"
| "join_or_leave GetRoomInfo = False"
| "join_or_leave Sweep = False"

text \<open>
  For the proofs: the \<open>lastSeen\<close> the room holds for a session, and how a room follows
  the sessions of the specification up to the time \<open>T\<close> of the last request: what the
  room holds agrees with them, and a session the room has dropped was last seen more
  than five minutes before \<open>T\<close>.
\<close>

definition seen_of :: "room \<Rightarrow> session_id \<Rightarrow> time option" where
  "seen_of r sid = map_option lastSeen (map_get (participants r) sid)"

definition tracks :: "time \<Rightarrow> room \<Rightarrow> (session_id \<times> time) list \<Rightarrow> bool" where
  "tracks T r ss =
     (distinct (map fst (participants r)) \<and> distinct (map fst ss) \<and>
      (\<forall>sid s. seen_of r sid = Some s \<longrightarrow> map_get ss sid = Some s) \<and>
      (\<forall>sid s. map_get ss sid = Some s \<longrightarrow> seen_of r sid = None \<longrightarrow> s < T - 5 * 60 * 1000))"

section \<open>The polling client (sync-client.js)\<close>

text \<open>
  The fields of \<^verbatim>\<open>DDDSyncClient\<close> that polling reads and writes. \<open>pollInterval\<close> is the
  running interval timer, held as the period \<^verbatim>\<open>setInterval\<close> was given (\<open>None\<close>: no
  timer). The request of one tick either throws (network error, or a status that is not
  ok), or yields the reply's \<^verbatim>\<open>success\<close> flag and body, or yields a successful reply
  whose handling throws in one of the callbacks the tick calls (\<open>CallbackThrew\<close>): the
  counts are assigned by then, the watermark is not, and the tick ends in the
  \<^verbatim>\<open>catch\<close> branch. \<^verbatim>\<open>!this.currentRoomId\<close> holds for \<^verbatim>\<open>null\<close> and for the empty string.
\<close>

record client =
  currentRoomId :: "string option"
  client_sessionId :: "session_id option"
  participantCount :: nat
  activePlayerCount :: nat
  pollInterval :: "real option"
  pollDelay :: real
  lastPollTimestamp :: since_arg

datatype poll_result = RequestFailed | Reply bool poll_response | CallbackThrew poll_response

fun falsy_str :: "string option \<Rightarrow> bool" where
  "falsy_str None = True"
| "falsy_str (Some s) = (s = [])"

definition new_client :: client where
  "new_client =
     \<lparr> currentRoomId = None, client_sessionId = None, participantCount = 0,
       activePlayerCount = 0, pollInterval = None, pollDelay = 2000,
       lastPollTimestamp = SinceNull \<rparr>"

definition startPolling :: "client \<Rightarrow> client" where
  "startPolling c = c\<lparr> pollInterval := Some (pollDelay c) \<rparr>"

definition stopPolling :: "client \<Rightarrow> client" where
  "stopPolling c = c\<lparr> pollInterval := None \<rparr>"

text \<open>\<^verbatim>\<open>leaveRoom\<close> of the player-management client, once its request is over.\<close>

definition leaveRoom :: "client \<Rightarrow> client" where
  "leaveRoom c =
     (stopPolling c)\<lparr> currentRoomId := None, client_sessionId := None, participantCount := 0,
                      activePlayerCount := 0, lastPollTimestamp := SinceNull \<rparr>"

text \<open>The interval callback of the player-management client.\<close>

definition poll_tick :: "poll_result \<Rightarrow> client \<Rightarrow> client" where
  "poll_tick res c =
     (if falsy_str (currentRoomId c) \<or> falsy_str (client_sessionId c) then c
      else case res of
             RequestFailed \<Rightarrow> c\<lparr> pollDelay := min (pollDelay c * 1.5) 10000 \<rparr>
           | Reply success response \<Rightarrow>
               if success
               then c\<lparr> participantCount := resp_participantCount response,
                       activePlayerCount := resp_activePlayerCount response,
                       lastPollTimestamp := SinceIso (resp_timestamp response),
                       pollDelay := 2000 \<rparr>
               else c
           | CallbackThrew response \<Rightarrow>
               c\<lparr> participantCount := resp_participantCount response,
                  activePlayerCount := resp_activePlayerCount response,
                  pollDelay := min (pollDelay c * 1.5) 10000 \<rparr>)"

text \<open>The interval callback of the first client (\<^verbatim>\<open>sync-client.js\<close>).\<close>

definition poll_tick_first :: "poll_result \<Rightarrow> client \<Rightarrow> client" where
  "poll_tick_first res c =
     (if falsy_str (currentRoomId c) \<or> falsy_str (client_sessionId c) then c
      else case res of
             RequestFailed \<Rightarrow> c\<lparr> pollDelay := min (pollDelay c * 1.5) 10000 \<rparr>
           | Reply success response \<Rightarrow>
               if success
               then c\<lparr> participantCount := resp_participantCount response,
                       lastPollTimestamp := SinceIso (resp_timestamp response) \<rparr>
               else c
           | CallbackThrew response \<Rightarrow>
               c\<lparr> participantCount := resp_participantCount response,
                  pollDelay := min (pollDelay c * 1.5) 10000 \<rparr>)"

text \<open>\<^verbatim>\<open>createRoom\<close> and \<^verbatim>\<open>joinRoom\<close> on a successful reply.\<close>

definition entered_room :: "string \<Rightarrow> session_id \<Rightarrow> nat \<Rightarrow> nat \<Rightarrow> client \<Rightarrow> client" where
  "entered_room rid sid n a c =
     startPolling (c\<lparr> currentRoomId := Some rid, client_sessionId := Some sid,
                      participantCount := n, activePlayerCount := a \<rparr>)"

section \<open>Rooms and players of the examples\<close>

definition roll :: "time \<Rightarrow> message" where
  "roll t = \<lparr> payload = DiceRoll (Some [3, 5]), fromSession = ''s1'', timestamp = t,
              msg_id = real_of_int t \<rparr>"

definition room_with_log :: "message list \<Rightarrow> room" where
  "room_with_log ms = (new_Room 0 ''ROOM'')\<lparr> messages := ms \<rparr>"

definition full_log :: room where
  "full_log = room_with_log (map roll [1 ..< 51])"

definition eleven_events :: room where
  "eleven_events = room_with_log (map roll [1, 2, 3, 4, 5, 6, 7, 8, 9, 10, 11])"

definition ann :: player where
  "ann = \<lparr> attrs = [(''name'', ''Ann'')], length_prop = None, player_sessionId = None,
           isActive = True, lastUpdated = None \<rparr>"


definition created :: room where
  "created = snd (handle_create_room 0 ''ROOM'' ''s1'' ''ua'' ''ip'')"


definition dice_rolled :: room where
  "dice_rolled =
     snd (handle_sync_dice 2 0 ''s1'' (Some [3, 5])
       (snd (handle_join_room 1 ''s2'' ''ua'' ''ip'' created)))"

definition two_rosters :: room where
  "two_rosters =
     snd (updatePlayerData 2 ''s2'' (PlayersArray [ann])
       (snd (updatePlayerData 1 ''s1'' (PlayersArray [ann]) created)))"

definition five_sessions :: room where
  "five_sessions =
     fold (\<lambda>sid r. snd (handle_join_room 0 sid ''ua'' ''ip'' r))
       [''s2'', ''s3'', ''s4'', ''s5''] created"

definition submit_each :: "session_id list \<Rightarrow> room \<Rightarrow> room" where
  "submit_each sids r =
     fold (\<lambda>sid r. snd (sync_players_endpoint 1 0 sid (PlayersArray [ann]) r)) sids r"

definition submit_each_handler :: "session_id list \<Rightarrow> room \<Rightarrow> room" where
  "submit_each_handler sids r =
     fold (\<lambda>sid r. snd (handle_sync_players 1 0 sid (PlayersArray [ann]) r)) sids r"

definition four_active :: room where
  "four_active = submit_each [''s1'', ''s2'', ''s3'', ''s4''] five_sessions"

definition polling_client :: client where
  "polling_client = entered_room ''ROOM'' ''s1'' 1 0 new_client"

definition some_reply :: poll_response where
  "some_reply =
     \<lparr> resp_messages = [], resp_participantCount = 1, resp_activePlayerCount = 0,
       resp_currentDiceValues = None, resp_timerState = timerState created,
       resp_players = [], resp_timestamp = 5 \<rparr>"

definition stale_room :: room where
  "stale_room =
     snd (sync_players_endpoint 1 0 ''s2'' (PlayersArray [ann])
       (snd (handle_join_room 0 ''s2'' ''ua'' ''ip'' created)))"

definition mixed_room :: room where
  "mixed_room =
     snd (sync_players_endpoint 200001 0 ''s2'' (PlayersArray [ann])
       (snd (handle_join_room 200000 ''s2'' ''ua'' ''ip''
         (snd (sync_players_endpoint 1 0 ''s1'' (PlayersArray [ann]) created)))))"

definition join_leave_history :: "(time \<times> request) list" where
  "join_leave_history =
     [(10, JoinRoom ''s2'' ''ua'' ''ip''), (20, JoinRoom ''s3'' ''ua'' ''ip''),
      (30, LeaveRoom 0 ''s2'')]"

section \<open>Lemmas on the room's maps\<close>

lemma purge_loop_participants:
  "participants (purge_loop t es r) =
     filter (\<lambda>(k, _). k \<notin> {k. \<exists>p. (k, p) \<in> set es \<and> lastSeen p < t}) (participants r)"
proof (induction es arbitrary: r)
  case Nil
  then show ?case by simp
next
  case (Cons e es)
  obtain sid p where e: "e = (sid, p)" by (cases e)
  show ?case
    unfolding e by (auto simp: Cons.IH AList.delete_eq intro!: filter_cong)
qed

lemma purge_loop_players:
  "players (purge_loop t es r) =
     filter (\<lambda>(k, _). k \<notin> {k. \<exists>p. (k, p) \<in> set es \<and> lastSeen p < t}) (players r)"
proof (induction es arbitrary: r)
  case Nil
  then show ?case by simp
next
  case (Cons e es)
  obtain sid p where e: "e = (sid, p)" by (cases e)
  show ?case
    unfolding e by (auto simp: Cons.IH AList.delete_eq intro!: filter_cong)
qed

lemma purge_loop_rest:
  "messages (purge_loop t es r) = messages r"
  "currentDiceValues (purge_loop t es r) = currentDiceValues r"
  "timerState (purge_loop t es r) = timerState r"
  "lastActivity (purge_loop t es r) = lastActivity r"
  "createdAt (purge_loop t es r) = createdAt r"
  "room_id (purge_loop t es r) = room_id r"
  by (induction t es r rule: purge_loop.induct) auto

lemma distinct_keys_filter: "distinct (map fst al) \<Longrightarrow> distinct (map fst (filter P al))"
  by (induction al) auto

lemma distinct_keys_unique:
  assumes "distinct (map fst al)" and "(k, p) \<in> set al" and "(k, p') \<in> set al"
  shows "p = p'"
proof -
  have "map_of al k = Some p"
    using assms(1,2) by (rule map_of_is_SomeI)
  moreover have "map_of al k = Some p'"
    using assms(1,3) by (rule map_of_is_SomeI)
  ultimately show ?thesis by simp
qed

lemma purge_participants_distinct:
  assumes "distinct (map fst (participants r))"
  shows "participants (purge_loop t (participants r) r) =
           filter (\<lambda>(k, p). \<not> lastSeen p < t) (participants r)"
  unfolding purge_loop_participants
proof (rule filter_cong [OF refl])
  fix x assume x: "x \<in> set (participants r)"
  obtain k p where kp: "x = (k, p)" by (cases x)
  have "(k \<in> {k. \<exists>p'. (k, p') \<in> set (participants r) \<and> lastSeen p' < t}) = (lastSeen p < t)"
  proof (unfold mem_Collect_eq, rule iffI)
    assume "\<exists>p'. (k, p') \<in> set (participants r) \<and> lastSeen p' < t"
    then obtain p' where p': "(k, p') \<in> set (participants r)" "lastSeen p' < t" by blast
    have "p = p'"
      using assms x p'(1) unfolding kp by (rule distinct_keys_unique)
    with p'(2) show "lastSeen p < t" by simp
  next
    assume "lastSeen p < t"
    with x show "\<exists>p'. (k, p') \<in> set (participants r) \<and> lastSeen p' < t"
      unfolding kp by blast
  qed
  then show "(case x of (k, _) \<Rightarrow> k \<notin> {k. \<exists>p. (k, p) \<in> set (participants r) \<and> lastSeen p < t})
           = (case x of (k, p) \<Rightarrow> \<not> lastSeen p < t)"
    unfolding kp prod.case by (rule arg_cong [where f = Not])
qed

lemma length_filter_distinct_keys:
  assumes "distinct (map fst al)"
  shows "length (filter (\<lambda>(k, p). P p) al) = card {k. \<exists>p. map_of al k = Some p \<and> P p}"
proof -
  let ?f = "filter (\<lambda>(k, p). P p) al"
  have d: "distinct (map fst ?f)"
    using assms by (rule distinct_keys_filter)
  have "set (map fst ?f) = {k. \<exists>p. map_of al k = Some p \<and> P p}"
    using assms by (auto simp: map_of_eq_Some_iff image_iff)
  then have "card {k. \<exists>p. map_of al k = Some p \<and> P p} = card (set (map fst ?f))"
    by simp
  also have "\<dots> = length (map fst ?f)"
    using d by (rule distinct_card)
  finally show ?thesis by simp
qed

lemma participants_addMessage [simp]: "participants (addMessage now rnd pl from r) = participants r"
  by (simp add: addMessage_def Let_def)

lemma participants_updatePlayerData [simp]:
  "participants (snd (updatePlayerData now sid arg r)) = participants r"
  by (cases arg) (simp_all add: updatePlayerData_def Let_def)

lemma participants_forEach_player [simp]:
  "participants (snd (forEach_player now sid ps r)) = participants r"
proof (induction ps arbitrary: r)
  case Nil
  then show ?case by simp
next
  case (Cons p ps)
  let ?pws = "p\<lparr> player_sessionId := Some sid,
                  isActive := (getActivePlayerCount r < 4 \<or>
                     (case map_get (players r) sid of None \<Rightarrow> False
                      | Some ps \<Rightarrow> array_isActive ps)) \<rparr>"
  obtain e r' where u: "updatePlayerData now sid (PlayerObject ?pws) r = (e, r')"
    by (cases "updatePlayerData now sid (PlayerObject ?pws) r")
  have "participants r' = participants r"
    using participants_updatePlayerData [of now sid "PlayerObject ?pws" r] u by simp
  then show ?case
    using u Cons.IH [of r'] by (cases e) (simp_all add: Let_def)
qed

lemma distinct_updateParticipant:
  "distinct (map fst (participants r)) \<Longrightarrow>
   distinct (map fst (participants (updateParticipant now sid r)))"
  by (simp add: updateParticipant_def distinct_update split: option.splits)

lemma distinct_getParticipantCount:
  "distinct (map fst (participants r)) \<Longrightarrow>
   distinct (map fst (participants (snd (getParticipantCount now r))))"
  by (simp add: getParticipantCount_def Let_def purge_loop_participants distinct_keys_filter)

lemma snd_handle_join_room:
  "snd (handle_join_room now sid ua addr r) =
     snd (getParticipantCount now (addParticipant now sid ua addr r))"
  by (simp add: handle_join_room_def Let_def case_prod_unfold)

lemma snd_handle_sync_dice:
  "snd (handle_sync_dice now rnd sid dv r) =
     snd (getParticipantCount now
       (addMessage now rnd (DiceRoll dv) sid
          ((updateParticipant now sid r)\<lparr> currentDiceValues := dv \<rparr>)))"
  by (simp add: handle_sync_dice_def Let_def case_prod_unfold)

lemma snd_handle_sync_timer:
  "snd (handle_sync_timer now rnd sid ts r) =
     snd (getParticipantCount now
       (addMessage now rnd (TimerSync (ts\<lparr> lastUpdatedBy := Some sid, lastUpdatedAt := Some now \<rparr>)) sid
          ((updateParticipant now sid r)
             \<lparr> timerState := ts\<lparr> lastUpdatedBy := Some sid, lastUpdatedAt := Some now \<rparr> \<rparr>)))"
  by (simp add: handle_sync_timer_def Let_def case_prod_unfold)

lemma snd_handle_poll:
  "snd (handle_poll now sid since r) =
     snd (getParticipantCount now (updateParticipant now sid r))"
  by (simp add: handle_poll_def Let_def case_prod_unfold)

lemma snd_handle_leave_room:
  "fst (snd (handle_leave_room now rnd sid r)) =
     snd (getParticipantCount now
       (addMessage now rnd (PlayersUpdate (getPlayerData (removeParticipant now sid r))) sid
          (removeParticipant now sid r)))"
  by (simp add: handle_leave_room_def isEmpty_def Let_def case_prod_unfold)

lemma distinct_handle_sync_players:
  assumes "distinct (map fst (participants r))"
  shows "distinct (map fst (participants (snd (handle_sync_players now rnd sid arg r))))"
proof -
  let ?r1 = "updateParticipant now sid r"
  have d1: "distinct (map fst (participants ?r1))"
    using assms by (rule distinct_updateParticipant)
  show ?thesis
  proof (cases arg)
    case (PlayersArray ps)
    obtain e r2 where f: "forEach_player now sid ps ?r1 = (e, r2)"
      by (cases "forEach_player now sid ps ?r1")
    have p2: "participants r2 = participants ?r1"
      using participants_forEach_player [of now sid ps ?r1] f by simp
    show ?thesis
    proof (cases e)
      case None
      have "snd (handle_sync_players now rnd sid arg r) =
              snd (getParticipantCount now
                (addMessage now rnd (PlayersUpdate (getPlayerData r2)) sid r2))"
        using PlayersArray f None
        by (simp add: handle_sync_players_def Let_def case_prod_unfold)
      moreover have "distinct (map fst (participants
          (addMessage now rnd (PlayersUpdate (getPlayerData r2)) sid r2)))"
        using d1 p2 by simp
      ultimately show ?thesis
        by (simp add: distinct_getParticipantCount)
    next
      case (Some err)
      then show ?thesis
        using PlayersArray f d1 p2 by (simp add: handle_sync_players_def Let_def)
    qed
  next
    case (PlayerObject p)
    then show ?thesis
      using d1 by (simp add: handle_sync_players_def Let_def)
  next
    case PlayersNull
    then show ?thesis
      using d1 by (simp add: handle_sync_players_def Let_def)
  qed
qed

lemma distinct_serve:
  assumes "distinct (map fst (participants r))"
  shows "distinct (map fst (participants (serve q r)))"
proof -
  obtain now req where q: "q = (now, req)" by (cases q)
  show ?thesis
  proof (cases req)
    case (JoinRoom sid ua addr)
    show ?thesis
      unfolding q JoinRoom serve.simps snd_handle_join_room
      by (rule distinct_getParticipantCount) (simp add: addParticipant_def distinct_update assms)
  next
    case (SyncPlayers rnd sid arg)
    show ?thesis
      unfolding q SyncPlayers serve.simps using assms by (rule distinct_handle_sync_players)
  next
    case (SyncDice rnd sid dv)
    show ?thesis
      unfolding q SyncDice serve.simps snd_handle_sync_dice
      by (rule distinct_getParticipantCount) (simp add: distinct_updateParticipant assms)
  next
    case (SyncTimer rnd sid ts)
    show ?thesis
      unfolding q SyncTimer serve.simps snd_handle_sync_timer
      by (rule distinct_getParticipantCount) (simp add: distinct_updateParticipant assms)
  next
    case (Poll sid since)
    show ?thesis
      unfolding q Poll serve.simps snd_handle_poll
      by (rule distinct_getParticipantCount) (simp add: distinct_updateParticipant assms)
  next
    case (LeaveRoom rnd sid)
    show ?thesis
      unfolding q LeaveRoom serve.simps snd_handle_leave_room
      by (rule distinct_getParticipantCount) (simp add: removeParticipant_def distinct_delete assms)
  next
    case GetRoomInfo
    have "snd (handle_room_info now r) = snd (getParticipantCount now r)"
      by (simp add: handle_room_info_def Let_def case_prod_unfold)
    then show ?thesis
      unfolding q GetRoomInfo serve.simps using assms by (simp add: distinct_getParticipantCount)
  next
    case Sweep
    have "snd (isEmpty now r) = snd (getParticipantCount now r)"
      by (simp add: isEmpty_def Let_def case_prod_unfold)
    then show ?thesis
      unfolding q Sweep serve.simps using assms by (simp add: distinct_getParticipantCount)
  qed
qed

lemma distinct_serve_all:
  "distinct (map fst (participants r)) \<Longrightarrow>
   distinct (map fst (participants (serve_all reqs r)))"
  unfolding serve_all_def
  by (induction reqs arbitrary: r) (simp_all add: distinct_serve)

lemma distinct_handle_create_room:
  "distinct (map fst (participants (snd (handle_create_room now rid sid ua addr))))"
proof -
  have "snd (handle_create_room now rid sid ua addr) =
          snd (getParticipantCount now (addParticipant now sid ua addr (new_Room now rid)))"
    by (simp add: handle_create_room_def Let_def case_prod_unfold)
  moreover have "distinct (map fst (participants (addParticipant now sid ua addr (new_Room now rid))))"
    by (simp add: addParticipant_def new_Room_def)
  ultimately show ?thesis
    by (simp add: distinct_getParticipantCount)
qed

lemma players_updateParticipant [simp]: "players (updateParticipant now sid r) = players r"
  by (simp add: updateParticipant_def split: option.splits)




lemma messages_getParticipantCount [simp]:
  "messages (snd (getParticipantCount now r)) = messages r"
  by (simp add: getParticipantCount_def Let_def purge_loop_rest)

lemma players_getParticipantCount:
  "players (snd (getParticipantCount now r)) =
     filter (\<lambda>(k, _). k \<notin> {k. \<exists>p. (k, p) \<in> set (participants r) \<and> lastSeen p < now - 5 * 60 * 1000})
       (players r)"
  by (simp add: getParticipantCount_def Let_def purge_loop_players)

lemma map_of_filter_keys:
  "map_of (filter (\<lambda>(k, _). P k) al) k = (if P k then map_of al k else None)"
  by (induction al) auto


lemma messages_updateParticipant [simp]: "messages (updateParticipant now sid r) = messages r"
  by (simp add: updateParticipant_def split: option.splits)

lemma getRecentMessages_updateParticipant:
  "getRecentMessages since (updateParticipant now sid r) = getRecentMessages since r"
  unfolding getRecentMessages_def messages_updateParticipant by (rule refl)

lemma map_of_updatePlayerData_other:
  "b \<noteq> a \<Longrightarrow> map_get (players (snd (updatePlayerData now a arg r))) b = map_get (players r) b"
  by (cases arg) (simp_all add: updatePlayerData_def Let_def AList.delete_conv AList.update_conv')


lemma participants_getParticipantCount:
  "participants (snd (getParticipantCount now r)) =
     filter (\<lambda>(k, _). k \<notin> {k. \<exists>p. (k, p) \<in> set (participants r) \<and> lastSeen p < now - 5 * 60 * 1000})
       (participants r)"
  by (simp add: getParticipantCount_def Let_def purge_loop_participants)



lemma fields_getParticipantCount [simp]:
  "currentDiceValues (snd (getParticipantCount now r)) = currentDiceValues r"
  "timerState (snd (getParticipantCount now r)) = timerState r"
  "lastActivity (snd (getParticipantCount now r)) = lastActivity r"
  by (simp_all add: getParticipantCount_def Let_def purge_loop_rest)

lemma fields_addMessage [simp]:
  "currentDiceValues (addMessage now rnd pl from r) = currentDiceValues r"
  "timerState (addMessage now rnd pl from r) = timerState r"
  "players (addMessage now rnd pl from r) = players r"
  "lastActivity (addMessage now rnd pl from r) = now"
  by (simp_all add: addMessage_def Let_def)


lemma map_set_absent: "k \<notin> fst ` set al \<Longrightarrow> map_set k v al = al @ [(k, v)]"
  by (induction al) auto

lemma map_set_after_delete: "map_set k v (map_delete k al) = map_delete k al @ [(k, v)]"
  by (rule map_set_absent) (auto simp: AList.delete_eq)

lemma players_purge_empty:
  "players r = [] \<Longrightarrow> players (snd (getParticipantCount now r)) = []"
  by (simp add: players_getParticipantCount)

lemma players_updatePlayerData_object:
  "players r = [] \<Longrightarrow> players (snd (updatePlayerData now sid (PlayerObject p) r)) = []"
  by (simp add: updatePlayerData_def Let_def)

lemma players_forEach_player_empty:
  "players r = [] \<Longrightarrow> players (snd (forEach_player now sid ps r)) = []"
proof (induction ps arbitrary: r)
  case Nil
  then show ?case by simp
next
  case (Cons p ps)
  let ?pws = "p\<lparr> player_sessionId := Some sid,
                  isActive := (getActivePlayerCount r < 4 \<or>
                     (case map_get (players r) sid of None \<Rightarrow> False
                      | Some ps \<Rightarrow> array_isActive ps)) \<rparr>"
  obtain e r' where u: "updatePlayerData now sid (PlayerObject ?pws) r = (e, r')"
    by (cases "updatePlayerData now sid (PlayerObject ?pws) r")
  have "players r' = []"
    using players_updatePlayerData_object [OF Cons.prems, of now sid ?pws] u by simp
  then show ?case
    using u Cons.IH [of r'] by (cases e) (simp_all add: Let_def)
qed

lemma players_handle_sync_players_empty:
  assumes "players r = []"
  shows "players (snd (handle_sync_players now rnd sid arg r)) = []"
proof -
  let ?r1 = "updateParticipant now sid r"
  have p1: "players ?r1 = []"
    using assms by simp
  show ?thesis
  proof (cases arg)
    case (PlayersArray ps)
    obtain e r2 where f: "forEach_player now sid ps ?r1 = (e, r2)"
      by (cases "forEach_player now sid ps ?r1")
    have p2: "players r2 = []"
      using players_forEach_player_empty [OF p1, of now sid ps] f by simp
    show ?thesis
    proof (cases e)
      case None
      have "snd (handle_sync_players now rnd sid arg r) =
              snd (getParticipantCount now
                (addMessage now rnd (PlayersUpdate (getPlayerData r2)) sid r2))"
        using PlayersArray f None
        by (simp add: handle_sync_players_def Let_def case_prod_unfold)
      then show ?thesis
        using p2 by (simp add: players_purge_empty)
    next
      case (Some err)
      then show ?thesis
        using PlayersArray f p2 by (simp add: handle_sync_players_def Let_def)
    qed
  next
    case (PlayerObject p)
    then show ?thesis
      using p1 by (simp add: handle_sync_players_def Let_def)
  next
    case PlayersNull
    then show ?thesis
      using p1 by (simp add: handle_sync_players_def Let_def)
  qed
qed

lemma players_serve_empty:
  assumes "players r = []"
  shows "players (serve q r) = []"
proof -
  obtain now req where q: "q = (now, req)" by (cases q)
  show ?thesis
  proof (cases req)
    case (JoinRoom sid ua addr)
    show ?thesis
      unfolding q JoinRoom serve.simps snd_handle_join_room
      by (rule players_purge_empty) (simp add: addParticipant_def assms)
  next
    case (SyncPlayers rnd sid arg)
    show ?thesis
      unfolding q SyncPlayers serve.simps using assms by (rule players_handle_sync_players_empty)
  next
    case (SyncDice rnd sid dv)
    show ?thesis
      unfolding q SyncDice serve.simps snd_handle_sync_dice
      by (rule players_purge_empty) (simp add: assms)
  next
    case (SyncTimer rnd sid ts)
    show ?thesis
      unfolding q SyncTimer serve.simps snd_handle_sync_timer
      by (rule players_purge_empty) (simp add: assms)
  next
    case (Poll sid since)
    show ?thesis
      unfolding q Poll serve.simps snd_handle_poll
      by (rule players_purge_empty) (simp add: assms)
  next
    case (LeaveRoom rnd sid)
    show ?thesis
      unfolding q LeaveRoom serve.simps snd_handle_leave_room
      by (rule players_purge_empty) (simp add: removeParticipant_def assms)
  next
    case GetRoomInfo
    have "snd (handle_room_info now r) = snd (getParticipantCount now r)"
      by (simp add: handle_room_info_def Let_def case_prod_unfold)
    then show ?thesis
      unfolding q GetRoomInfo serve.simps using assms by (simp add: players_purge_empty)
  next
    case Sweep
    have "snd (isEmpty now r) = snd (getParticipantCount now r)"
      by (simp add: isEmpty_def Let_def case_prod_unfold)
    then show ?thesis
      unfolding q Sweep serve.simps using assms by (simp add: players_purge_empty)
  qed
qed

lemma set_map_set_other:
  "b \<noteq> a \<Longrightarrow> (b, p) \<in> set (map_set a v al) \<Longrightarrow> (b, p) \<in> set al"
  by (induction al) (auto split: if_splits)

lemma stale_updateParticipant_other:
  assumes "b \<noteq> a" and "(b, p) \<in> set (participants (updateParticipant now a r))"
  shows "(b, p) \<in> set (participants r)"
  using assms by (auto simp: updateParticipant_def split: option.splits dest: set_map_set_other)

lemma map_get_players_purge:
  "map_get (players (snd (getParticipantCount now r))) b = map_get (players r) b \<or>
   (map_get (players (snd (getParticipantCount now r))) b = None \<and>
    (\<exists>p. (b, p) \<in> set (participants r) \<and> lastSeen p < now - 5 * 60 * 1000))"
  unfolding players_getParticipantCount by (auto simp: map_of_filter_keys)







lemma participants_purge_cong:
  "participants a = participants b \<Longrightarrow>
   participants (snd (getParticipantCount now a)) = participants (snd (getParticipantCount now b))"
  by (simp add: participants_getParticipantCount)

lemma map_of_filter_distinct:
  "distinct (map fst al) \<Longrightarrow>
   map_of (filter (\<lambda>(k, v). P v) al) k =
     (case map_of al k of None \<Rightarrow> None | Some v \<Rightarrow> if P v then Some v else None)"
proof (induction al)
  case Nil
  then show ?case by simp
next
  case (Cons e al)
  obtain k' v' where e: "e = (k', v')" by (cases e)
  have notin: "map_of al k' = None"
    using Cons.prems unfolding e by (simp add: map_of_eq_None_iff)
  show ?case
    using Cons notin unfolding e by (auto split: option.splits)
qed

lemma seen_of_purge:
  assumes "distinct (map fst (participants r))"
  shows "seen_of (snd (getParticipantCount now r)) sid =
           (case seen_of r sid of
              None \<Rightarrow> None
            | Some s \<Rightarrow> if s < now - 5 * 60 * 1000 then None else Some s)"
proof -
  have p: "participants (snd (getParticipantCount now r)) =
             filter (\<lambda>(k, p). \<not> lastSeen p < now - 5 * 60 * 1000) (participants r)"
    using purge_participants_distinct [OF assms] by (simp add: getParticipantCount_def Let_def)
  show ?thesis
    unfolding seen_of_def p map_of_filter_distinct [OF assms]
    by (simp split: option.splits)
qed

lemma tracks_join:
  assumes tr: "tracks T r ss" and le: "T \<le> t"
  shows "tracks t (serve (t, JoinRoom sid ua addr) r) (spec_step (t, JoinRoom sid ua addr) ss)"
proof -
  let ?r1 = "addParticipant t sid ua addr r"
  let ?r2 = "snd (getParticipantCount t ?r1)"
  have dr: "distinct (map fst (participants r))" and ds: "distinct (map fst ss)"
    and up: "\<And>x s. seen_of r x = Some s \<Longrightarrow> map_get ss x = Some s"
    and down: "\<And>x s. map_get ss x = Some s \<Longrightarrow> seen_of r x = None \<Longrightarrow> s < T - 5 * 60 * 1000"
    using tr unfolding tracks_def by blast+
  have d1: "distinct (map fst (participants ?r1))"
    using dr by (simp add: addParticipant_def distinct_update)
  have s1: "seen_of ?r1 x = (if x = sid then Some t else seen_of r x)" for x
    by (simp add: seen_of_def addParticipant_def AList.update_conv')
  have s2: "seen_of ?r2 x =
      (case (if x = sid then Some t else seen_of r x) of
         None \<Rightarrow> None | Some s \<Rightarrow> if s < t - 5 * 60 * 1000 then None else Some s)" for x
    unfolding seen_of_purge [OF d1] s1 ..
  have a: "map_get (map_set sid t ss) x = (if x = sid then Some t else map_get ss x)" for x
    by (simp add: AList.update_conv')
  have "tracks t ?r2 (map_set sid t ss)"
    unfolding tracks_def
  proof (intro conjI allI impI)
    show "distinct (map fst (participants ?r2))"
      using d1 by (rule distinct_getParticipantCount)
    show "distinct (map fst (map_set sid t ss))"
      using ds by (rule distinct_update)
  next
    fix x s assume "seen_of ?r2 x = Some s"
    then show "map_get (map_set sid t ss) x = Some s"
      unfolding s2 a using up [of x] by (auto split: option.splits if_splits)
  next
    fix x s assume m: "map_get (map_set sid t ss) x = Some s" and n: "seen_of ?r2 x = None"
    show "s < t - 5 * 60 * 1000"
    proof (cases "x = sid")
      case True
      then show ?thesis using m n unfolding s2 a by (simp split: if_splits)
    next
      case False
      then have ms: "map_get ss x = Some s" using m unfolding a by simp
      show ?thesis
      proof (cases "seen_of r x")
        case None
        then have "s < T - 5 * 60 * 1000" using down [OF ms] by simp
        with le show ?thesis by simp
      next
        case (Some s')
        then have "s' = s" using up [of x s'] ms by simp
        then show ?thesis using n Some False unfolding s2 by (simp split: if_splits)
      qed
    qed
  qed
  then show ?thesis
    unfolding serve.simps snd_handle_join_room spec_step.simps .
qed

lemma tracks_leave:
  assumes tr: "tracks T r ss" and le: "T \<le> t"
  shows "tracks t (serve (t, LeaveRoom rnd sid) r) (spec_step (t, LeaveRoom rnd sid) ss)"
proof -
  let ?r0 = "removeParticipant t sid r"
  let ?r1 = "addMessage t rnd (PlayersUpdate (getPlayerData ?r0)) sid ?r0"
  let ?r2 = "snd (getParticipantCount t ?r1)"
  have dr: "distinct (map fst (participants r))" and ds: "distinct (map fst ss)"
    and up: "\<And>x s. seen_of r x = Some s \<Longrightarrow> map_get ss x = Some s"
    and down: "\<And>x s. map_get ss x = Some s \<Longrightarrow> seen_of r x = None \<Longrightarrow> s < T - 5 * 60 * 1000"
    using tr unfolding tracks_def by blast+
  have p1: "participants ?r1 = map_delete sid (participants r)"
    by (simp add: removeParticipant_def)
  have d1: "distinct (map fst (participants ?r1))"
    unfolding p1 using dr by (rule distinct_delete)
  have s1: "seen_of ?r1 x = (if x = sid then None else seen_of r x)" for x
    unfolding seen_of_def p1 by (simp add: AList.delete_conv)
  have s2: "seen_of ?r2 x =
      (case (if x = sid then None else seen_of r x) of
         None \<Rightarrow> None | Some s \<Rightarrow> if s < t - 5 * 60 * 1000 then None else Some s)" for x
    unfolding seen_of_purge [OF d1] s1 ..
  have a: "map_get (map_delete sid ss) x = (if x = sid then None else map_get ss x)" for x
    by (simp add: AList.delete_conv)
  have "tracks t ?r2 (map_delete sid ss)"
    unfolding tracks_def
  proof (intro conjI allI impI)
    show "distinct (map fst (participants ?r2))"
      using d1 by (rule distinct_getParticipantCount)
    show "distinct (map fst (map_delete sid ss))"
      using ds by (rule distinct_delete)
  next
    fix x s assume "seen_of ?r2 x = Some s"
    then show "map_get (map_delete sid ss) x = Some s"
      unfolding s2 a using up [of x] by (auto split: option.splits if_splits)
  next
    fix x s assume m: "map_get (map_delete sid ss) x = Some s" and n: "seen_of ?r2 x = None"
    from m have ne: "x \<noteq> sid" and ms: "map_get ss x = Some s"
      unfolding a by (simp_all split: if_splits)
    show "s < t - 5 * 60 * 1000"
    proof (cases "seen_of r x")
      case None
      then have "s < T - 5 * 60 * 1000" using down [OF ms] by simp
      with le show ?thesis by simp
    next
      case (Some s')
      then have "s' = s" using up [of x s'] ms by simp
      then show ?thesis using n Some ne unfolding s2 by (simp split: if_splits)
    qed
  qed
  then show ?thesis
    unfolding serve.simps snd_handle_leave_room spec_step.simps .
qed


lemma tracks_create:
  "tracks t0 (snd (handle_create_room t0 rid sid0 ua addr)) [(sid0, t0)]"
proof -
  let ?r1 = "addParticipant t0 sid0 ua addr (new_Room t0 rid)"
  let ?r2 = "snd (getParticipantCount t0 ?r1)"
  have c: "snd (handle_create_room t0 rid sid0 ua addr) = ?r2"
    by (simp add: handle_create_room_def Let_def case_prod_unfold)
  have d1: "distinct (map fst (participants ?r1))"
    by (simp add: addParticipant_def new_Room_def)
  have s1: "seen_of ?r1 x = (if x = sid0 then Some t0 else None)" for x
    by (simp add: seen_of_def addParticipant_def new_Room_def)
  have s2: "seen_of ?r2 x = (if x = sid0 then Some t0 else None)" for x
    unfolding seen_of_purge [OF d1] s1 by simp
  have "tracks t0 ?r2 [(sid0, t0)]"
    unfolding tracks_def s2
    using distinct_getParticipantCount [OF d1, of t0] by (auto split: if_splits)
  then show ?thesis unfolding c .
qed

lemma tracks_fold:
  assumes "tracks T r ss" and "sorted (T # map fst reqs)"
    and "\<forall>q \<in> set reqs. join_or_leave (snd q)"
  shows "tracks (last (T # map fst reqs)) (fold serve reqs r) (fold spec_step reqs ss)"
  using assms
proof (induction reqs arbitrary: T r ss)
  case Nil
  then show ?case by simp
next
  case (Cons q reqs)
  obtain t req where q: "q = (t, req)" by (cases q)
  have le: "T \<le> t" and so: "sorted (t # map fst reqs)"
    using Cons.prems(2) unfolding q by simp_all
  have jl: "join_or_leave req" and rest: "\<forall>q \<in> set reqs. join_or_leave (snd q)"
    using Cons.prems(3) unfolding q by simp_all
  have step: "tracks t (serve (t, req) r) (spec_step (t, req) ss)"
    using jl tracks_join [OF Cons.prems(1) le] tracks_leave [OF Cons.prems(1) le]
    by (cases req) simp_all
  have "tracks (last (t # map fst reqs)) (fold serve reqs (serve (t, req) r))
          (fold spec_step reqs (spec_step (t, req) ss))"
    using step so rest by (rule Cons.IH)
  then show ?case unfolding q by simp
qed

lemma tracks_count:
  assumes tr: "tracks T r ss" and le: "T \<le> now"
  shows "fst (getParticipantCount now r) = spec_live_count now ss"
proof -
  let ?thr = "now - 5 * 60 * 1000"
  have dr: "distinct (map fst (participants r))" and ds: "distinct (map fst ss)"
    and up: "\<And>x s. seen_of r x = Some s \<Longrightarrow> map_get ss x = Some s"
    and down: "\<And>x s. map_get ss x = Some s \<Longrightarrow> seen_of r x = None \<Longrightarrow> s < T - 5 * 60 * 1000"
    using tr unfolding tracks_def by blast+
  have "fst (getParticipantCount now r) =
          length (filter (\<lambda>(k, p). \<not> lastSeen p < ?thr) (participants r))"
    using purge_participants_distinct [OF dr, of ?thr]
    by (simp add: getParticipantCount_def Let_def)
  also have "\<dots> = card {k. \<exists>p. map_get (participants r) k = Some p \<and> \<not> lastSeen p < ?thr}"
    using dr by (rule length_filter_distinct_keys)
  also have "{k. \<exists>p. map_get (participants r) k = Some p \<and> \<not> lastSeen p < ?thr} =
             {k. \<exists>s. map_get ss k = Some s \<and> \<not> s < ?thr}"
  proof (intro set_eqI iffI; unfold mem_Collect_eq)
    fix k assume "\<exists>p. map_get (participants r) k = Some p \<and> \<not> lastSeen p < ?thr"
    then obtain p where p: "map_get (participants r) k = Some p" "\<not> lastSeen p < ?thr" by blast
    then have "seen_of r k = Some (lastSeen p)" by (simp add: seen_of_def)
    then have "map_get ss k = Some (lastSeen p)" by (rule up)
    with p(2) show "\<exists>s. map_get ss k = Some s \<and> \<not> s < ?thr" by blast
  next
    fix k assume "\<exists>s. map_get ss k = Some s \<and> \<not> s < ?thr"
    then obtain s where s: "map_get ss k = Some s" "\<not> s < ?thr" by blast
    show "\<exists>p. map_get (participants r) k = Some p \<and> \<not> lastSeen p < ?thr"
    proof (cases "map_get (participants r) k")
      case None
      then have "seen_of r k = None" by (simp add: seen_of_def)
      then have "s < T - 5 * 60 * 1000" using down [OF s(1)] by simp
      with le s(2) show ?thesis by simp
    next
      case (Some p)
      then have "seen_of r k = Some (lastSeen p)" by (simp add: seen_of_def)
      then have "map_get ss k = Some (lastSeen p)" by (rule up)
      with s(1) have "lastSeen p = s" by simp
      with Some s(2) show ?thesis by simp
    qed
  qed
  also have "card {k. \<exists>s. map_get ss k = Some s \<and> \<not> s < ?thr} =
             length (filter (\<lambda>(k, s). \<not> s < ?thr) ss)"
    using length_filter_distinct_keys [OF ds, of "\<lambda>s. \<not> s < ?thr"] by simp
  also have "\<dots> = spec_live_count now ss"
    unfolding spec_live_count_def
    by (rule arg_cong [where f = length], rule filter_cong) auto
  finally show ?thesis .
qed

lemma join_leave_count:
  assumes jl: "\<forall>q \<in> set reqs. join_or_leave (snd q)"
    and mono: "sorted (t0 # map fst reqs @ [now])"
  shows "fst (getParticipantCount now (room_after t0 rid sid0 ua addr reqs)) =
           spec_live_count now (spec_sessions t0 sid0 reqs)"
proof -
  define ts where "ts = t0 # map fst reqs"
  have ne: "ts \<noteq> []"
    unfolding ts_def by simp
  have ap: "sorted (ts @ [now])"
    using mono unfolding ts_def by simp
  have so': "sorted ts" and all: "\<forall>x \<in> set ts. x \<le> now"
    using ap unfolding sorted_append by simp_all
  have "last ts \<in> set ts"
    using ne by (rule last_in_set)
  with all have le': "last ts \<le> now"
    by blast
  have so: "sorted (t0 # map fst reqs)" and le: "last (t0 # map fst reqs) \<le> now"
    using so' le' unfolding ts_def .
  have "tracks (last (t0 # map fst reqs))
          (fold serve reqs (snd (handle_create_room t0 rid sid0 ua addr)))
          (fold spec_step reqs [(sid0, t0)])"
    using tracks_create so jl by (rule tracks_fold)
  then show ?thesis
    unfolding room_after_def serve_all_def spec_sessions_def using le by (rule tracks_count)
qed

section \<open>The limit of four active players\<close>

text \<open>
  Claim C1, evaluated. Five sessions are in the room and each submits one player with
  \<^verbatim>\<open>isActive: true\<close>, through the endpoint body that passes the array on. At the fifth
  call four players of other sessions are active, \<^verbatim>\<open>canBeActive\<close> is
  \<^verbatim>\<open>(4 < 4) || playerData.isActive\<close>, which is true, and five players are active. One
  session alone stores five active players as well. Through the endpoint of
  \<^verbatim>\<open>exports.handler\<close> nothing is stored and no player is active.
\<close>

theorem five_active_players:
  "getActivePlayerCount (submit_each [''s1'', ''s2'', ''s3'', ''s4'', ''s5''] five_sessions) = 5 \<and>
   map isActive (getPlayerData (submit_each [''s1'', ''s2'', ''s3'', ''s4'', ''s5''] five_sessions)) =
     [True, True, True, True, True] \<and>
   getActivePlayerCount
     (snd (updatePlayerData 1 ''s1'' (PlayersArray [ann, ann, ann, ann, ann]) created)) = 5 \<and>
   getActivePlayerCount
     (submit_each_handler [''s1'', ''s2'', ''s3'', ''s4'', ''s5''] five_sessions) = 0"
  by code_simp

text \<open>
  Claim C2, evaluated. Four players of the sessions \<open>s1\<close> to \<open>s4\<close> are active and
  \<open>s5\<close> owns no player. The player \<open>s5\<close> then submits with \<^verbatim>\<open>isActive: true\<close> is
  stored active: the flag \<^verbatim>\<open>updatePlayerData\<close> reads is the one of the incoming object,
  not what the room stored for the session before.
\<close>

theorem new_activation_at_cap:
  "map_get (players four_active) ''s5'' = None \<and>
   length (filter isActive (concat (map_values (map_delete ''s5'' (players four_active))))) = 4 \<and>
   map_get (players (snd (updatePlayerData 2 ''s5'' (PlayersArray [ann]) four_active))) ''s5'' =
     Some [ann\<lparr> player_sessionId := Some ''s5'', isActive := True, lastUpdated := Some 2 \<rparr>]"
  by code_simp

section \<open>The /sync-players endpoint of the handler\<close>




section \<open>Requests of a session that is not a participant\<close>





section \<open>Recent events\<close>

text \<open>
  Claim C5, as the code has it. Without a watermark, and also with the number 0 (which
  \<^verbatim>\<open>!since\<close> takes for no watermark), \<^verbatim>\<open>getRecentMessages\<close> returns the last 10
  events. With the ISO string of a time value \<open>t\<close>, or with a number \<open>t\<close> other than 0,
  it returns the events whose timestamp is greater than \<open>t\<close>, in the order of the log.
  The function returns a list and no room: the log is as it was.
\<close>

theorem getRecentMessages_watermark:
  "getRecentMessages SinceNull r = slice_last 10 (messages r) \<and>
   getRecentMessages (SinceNum 0) r = slice_last 10 (messages r) \<and>
   (\<bar>t\<bar> \<le> 8640000000000000 \<longrightarrow>
      getRecentMessages (SinceIso t) r = filter (\<lambda>msg. timestamp msg > t) (messages r)) \<and>
   (t \<noteq> 0 \<and> \<bar>t\<bar> \<le> 8640000000000000 \<longrightarrow>
      getRecentMessages (SinceNum t) r = filter (\<lambda>msg. timestamp msg > t) (messages r))"
  by (simp add: getRecentMessages_def timeClip_def)

theorem getRecentMessages_watermark_witness:
  "\<bar>3::int\<bar> \<le> 8640000000000000 \<and> (3::int) \<noteq> 0 \<and>
   getRecentMessages (SinceIso 3) (room_with_log (map roll [1, 2, 3, 4, 5])) = map roll [4, 5] \<and>
   getRecentMessages (SinceNum 3) (room_with_log (map roll [1, 2, 3, 4, 5])) = map roll [4, 5]"
  using getRecentMessages_watermark [of "room_with_log (map roll [1, 2, 3, 4, 5])" 3]
  by (simp add: room_with_log_def roll_def)

text \<open>
  The claim as written fails for the watermark 0 sent as a number: of eleven events with
  timestamps 1 to 11, all later than 0, only the last ten are returned.
\<close>

theorem getRecentMessages_zero_watermark:
  "getRecentMessages (SinceNum 0) eleven_events = map roll [2, 3, 4, 5, 6, 7, 8, 9, 10, 11] \<and>
   filter (\<lambda>msg. timestamp msg > 0) (messages eleven_events) =
     map roll [1, 2, 3, 4, 5, 6, 7, 8, 9, 10, 11] \<and>
   getRecentMessages (SinceNum 0) eleven_events \<noteq>
     filter (\<lambda>msg. timestamp msg > 0) (messages eleven_events)"
  by (simp add: getRecentMessages_def eleven_events_def room_with_log_def slice_last_def
      new_Room_def roll_def)

section \<open>The event log is bounded\<close>

lemma length_slice_last: "length (slice_last n xs) = min n (length xs)"
  by (simp add: slice_last_def)

text \<open>
  Claim C6. After any \<^verbatim>\<open>addMessage\<close> the log holds at most 50 entries, whatever it
  held before; a log of exactly 50 entries loses its oldest entry and gains the new one
  at the end, and a shorter log just gains the new entry.
\<close>

theorem addMessage_bounded:
  "length (messages (addMessage now rnd pl from r)) \<le> 50 \<and>
   (length (messages r) = 50 \<longrightarrow>
      messages (addMessage now rnd pl from r) =
        tl (messages r) @ [\<lparr> payload = pl, fromSession = from, timestamp = now,
                             msg_id = real_of_int now + rnd \<rparr>]) \<and>
   (length (messages r) < 50 \<longrightarrow>
      messages (addMessage now rnd pl from r) =
        messages r @ [\<lparr> payload = pl, fromSession = from, timestamp = now,
                        msg_id = real_of_int now + rnd \<rparr>])"
proof (intro conjI impI)
  show "length (messages (addMessage now rnd pl from r)) \<le> 50"
    by (simp add: addMessage_def Let_def length_slice_last)
next
  assume full: "length (messages r) = 50"
  then obtain m ms where ms: "messages r = m # ms"
    by (cases "messages r") auto
  with full show "messages (addMessage now rnd pl from r) =
      tl (messages r) @ [\<lparr> payload = pl, fromSession = from, timestamp = now,
                           msg_id = real_of_int now + rnd \<rparr>]"
    by (simp add: addMessage_def Let_def slice_last_def)
next
  assume "length (messages r) < 50"
  then show "messages (addMessage now rnd pl from r) =
      messages r @ [\<lparr> payload = pl, fromSession = from, timestamp = now,
                      msg_id = real_of_int now + rnd \<rparr>]"
    by (simp add: addMessage_def Let_def)
qed

theorem addMessage_bounded_witness:
  "length (messages full_log) = 50 \<and>
   messages (addMessage 60 0 (DiceRoll None) ''s2'' full_log) =
     tl (messages full_log) @
       [\<lparr> payload = DiceRoll None, fromSession = ''s2'', timestamp = 60, msg_id = 60 \<rparr>] \<and>
   length (messages (room_with_log [])) < 50 \<and>
   messages (addMessage 60 0 (DiceRoll None) ''s2'' (room_with_log [])) =
     [\<lparr> payload = DiceRoll None, fromSession = ''s2'', timestamp = 60, msg_id = 60 \<rparr>]"
proof -
  have full: "length (messages full_log) = 50"
    by (simp add: full_log_def room_with_log_def)
  have short: "length (messages (room_with_log [])) < 50"
    by (simp add: room_with_log_def)
  show ?thesis
    using full short
      addMessage_bounded [of 60 0 "DiceRoll None" "''s2''" full_log]
      addMessage_bounded [of 60 0 "DiceRoll None" "''s2''" "room_with_log []"]
    by (simp add: room_with_log_def)
qed

section \<open>Polling\<close>

text \<open>
  Claim C7. The reply of \<^verbatim>\<open>/poll\<close> carries the recent events for the watermark without
  those the calling session sent, and the clock reading as the new watermark; the log is
  not changed.
\<close>

theorem handle_poll_filters_own:
  "\<exists>reply r'. handle_poll now sid since r = (Polled reply, r') \<and>
      resp_messages reply = filter (\<lambda>msg. fromSession msg \<noteq> sid) (getRecentMessages since r) \<and>
      sid \<notin> fromSession ` set (resp_messages reply) \<and>
      resp_timestamp reply = now \<and>
      messages r' = messages r"
  by (auto simp add: handle_poll_def Let_def case_prod_unfold getRecentMessages_updateParticipant
      getParticipantCount_def purge_loop_rest messages_updateParticipant)

text \<open>
  The scenario of the specification: session \<open>s1\<close> creates the room, \<open>s2\<close> joins,
  \<open>s1\<close> rolls 3 and 5. Polling without a watermark, \<open>s1\<close> receives nothing and \<open>s2\<close>
  receives the dice-roll event of \<open>s1\<close>.
\<close>

theorem handle_poll_filters_own_witness:
  "(\<exists>reply r'. handle_poll 3 ''s1'' SinceNull dice_rolled = (Polled reply, r') \<and>
       resp_messages reply = []) \<and>
   (\<exists>reply r'. handle_poll 3 ''s2'' SinceNull dice_rolled = (Polled reply, r') \<and>
       resp_messages reply =
         [\<lparr> payload = DiceRoll (Some [3, 5]), fromSession = ''s1'', timestamp = 2,
            msg_id = 2 \<rparr>])"
proof -
  have g: "getRecentMessages SinceNull dice_rolled =
             [\<lparr> payload = DiceRoll (Some [3, 5]), fromSession = ''s1'', timestamp = 2,
                msg_id = 2 \<rparr>]"
    by code_simp
  obtain reply1 r1 where p1: "handle_poll 3 ''s1'' SinceNull dice_rolled = (Polled reply1, r1)"
    and m1: "resp_messages reply1 =
      filter (\<lambda>msg. fromSession msg \<noteq> ''s1'') (getRecentMessages SinceNull dice_rolled)"
    using handle_poll_filters_own [of 3 "''s1''" SinceNull dice_rolled] by blast
  obtain reply2 r2 where p2: "handle_poll 3 ''s2'' SinceNull dice_rolled = (Polled reply2, r2)"
    and m2: "resp_messages reply2 =
      filter (\<lambda>msg. fromSession msg \<noteq> ''s2'') (getRecentMessages SinceNull dice_rolled)"
    using handle_poll_filters_own [of 3 "''s2''" SinceNull dice_rolled] by blast
  have "resp_messages reply1 = []"
    unfolding m1 g by simp
  moreover have "resp_messages reply2 =
      [\<lparr> payload = DiceRoll (Some [3, 5]), fromSession = ''s1'', timestamp = 2, msg_id = 2 \<rparr>]"
    unfolding m2 g by simp
  ultimately show ?thesis
    using p1 p2 by blast
qed

section \<open>Live participants\<close>

text \<open>
  Claim C8. In a room whose participants map has each session once (as every
  \<^verbatim>\<open>Map\<close> has, and as every room reached by requests has), \<^verbatim>\<open>getParticipantCount\<close>
  keeps exactly the participants whose \<open>lastSeen\<close> is not before
  \<open>now - 5 * 60 * 1000\<close>, removes the player lists of the sessions it removes and of no
  other, and returns the number of participants left. After any history of joins and
  leaves, with a clock that does not run backwards, that number is the number of
  sessions which joined, did not leave, and were last seen within five minutes of the
  query.
\<close>

theorem getParticipantCount_live:
  "(distinct (map fst (participants r)) \<longrightarrow>
      (let fiveMinutesAgo = now - 5 * 60 * 1000;
           (n, r') = getParticipantCount now r
       in participants r' =
            filter (\<lambda>(sid, p). \<not> lastSeen p < fiveMinutesAgo) (participants r) \<and>
          players r' =
            filter (\<lambda>(sid, ps). sid \<notin> {sid. \<exists>p. (sid, p) \<in> set (participants r) \<and>
                                                  lastSeen p < fiveMinutesAgo}) (players r) \<and>
          n = map_size (participants r') \<and>
          n = card {sid. \<exists>p. map_get (participants r) sid = Some p \<and>
                             \<not> lastSeen p < fiveMinutesAgo})) \<and>
   distinct (map fst (participants (room_after t0 rid sid0 ua addr reqs))) \<and>
   ((\<forall>q \<in> set reqs. join_or_leave (snd q)) \<and> sorted (t0 # map fst reqs @ [now]) \<longrightarrow>
      fst (getParticipantCount now (room_after t0 rid sid0 ua addr reqs)) =
        spec_live_count now (spec_sessions t0 sid0 reqs))"
proof (intro conjI impI)
  assume d: "distinct (map fst (participants r))"
  have p: "participants (snd (getParticipantCount now r)) =
           filter (\<lambda>(sid, p). \<not> lastSeen p < now - 5 * 60 * 1000) (participants r)"
    using purge_participants_distinct [OF d] by (simp add: getParticipantCount_def Let_def)
  have pl: "players (snd (getParticipantCount now r)) =
           filter (\<lambda>(sid, ps). sid \<notin> {sid. \<exists>p. (sid, p) \<in> set (participants r) \<and>
                                              lastSeen p < now - 5 * 60 * 1000}) (players r)"
    by (simp add: getParticipantCount_def Let_def purge_loop_players)
  have n: "fst (getParticipantCount now r) =
           map_size (participants (snd (getParticipantCount now r)))"
    by (simp add: getParticipantCount_def Let_def)
  have c: "fst (getParticipantCount now r) =
           card {sid. \<exists>p. map_get (participants r) sid = Some p \<and>
                        \<not> lastSeen p < now - 5 * 60 * 1000}"
    unfolding n p using length_filter_distinct_keys [OF d] by simp
  from p pl n c
  show "let fiveMinutesAgo = now - 5 * 60 * 1000;
           (n, r') = getParticipantCount now r
       in participants r' =
            filter (\<lambda>(sid, p). \<not> lastSeen p < fiveMinutesAgo) (participants r) \<and>
          players r' =
            filter (\<lambda>(sid, ps). sid \<notin> {sid. \<exists>p. (sid, p) \<in> set (participants r) \<and>
                                                  lastSeen p < fiveMinutesAgo}) (players r) \<and>
          n = map_size (participants r') \<and>
          n = card {sid. \<exists>p. map_get (participants r) sid = Some p \<and>
                             \<not> lastSeen p < fiveMinutesAgo}"
    unfolding Let_def case_prod_unfold by blast
next
  show "distinct (map fst (participants (room_after t0 rid sid0 ua addr reqs)))"
    unfolding room_after_def by (rule distinct_serve_all) (rule distinct_handle_create_room)
next
  assume "(\<forall>q \<in> set reqs. join_or_leave (snd q)) \<and> sorted (t0 # map fst reqs @ [now])"
  then have jl: "\<forall>q \<in> set reqs. join_or_leave (snd q)"
    and mono: "sorted (t0 # map fst reqs @ [now])"
    by blast+
  from jl mono
  show "fst (getParticipantCount now (room_after t0 rid sid0 ua addr reqs)) =
        spec_live_count now (spec_sessions t0 sid0 reqs)"
    by (rule join_leave_count)
qed

theorem getParticipantCount_live_witness:
  "distinct (map fst (participants mixed_room)) \<and>
   map fst (participants mixed_room) = [''s1'', ''s2''] \<and>
   map fst (players mixed_room) = [''s1'', ''s2''] \<and>
   map fst (participants (snd (getParticipantCount 400000 mixed_room))) = [''s2''] \<and>
   map fst (players (snd (getParticipantCount 400000 mixed_room))) = [''s2''] \<and>
   fst (getParticipantCount 400000 mixed_room) = 1 \<and>
   list_all join_or_leave (map snd join_leave_history) \<and>
   sorted (0 # map fst join_leave_history @ [300005]) \<and>
   spec_sessions 0 ''s1'' join_leave_history = [(''s1'', 0), (''s3'', 20)] \<and>
   spec_live_count 300005 (spec_sessions 0 ''s1'' join_leave_history) = 1 \<and>
   fst (getParticipantCount 300005
     (room_after 0 ''ROOM'' ''s1'' ''ua'' ''ip'' join_leave_history)) = 1"
proof -
  note t = getParticipantCount_live [of mixed_room 400000 0 "''ROOM''" "''s1''" "''ua''" "''ip''"
      join_leave_history]
  note t' = getParticipantCount_live [of mixed_room 300005 0 "''ROOM''" "''s1''" "''ua''" "''ip''"
      join_leave_history]
  have d: "distinct (map fst (participants mixed_room))"
    by code_simp
  have w1: "map fst (participants mixed_room) = [''s1'', ''s2'']"
    by code_simp
  have w2: "map fst (players mixed_room) = [''s1'', ''s2'']"
    by code_simp
  have w3: "map fst (participants (snd (getParticipantCount 400000 mixed_room))) = [''s2'']"
    by code_simp
  have w4: "map fst (players (snd (getParticipantCount 400000 mixed_room))) = [''s2'']"
    by code_simp
  have "fst (getParticipantCount 400000 mixed_room) =
          map_size (participants (snd (getParticipantCount 400000 mixed_room)))"
    using t [THEN conjunct1, rule_format, OF d] unfolding Let_def case_prod_unfold by blast
  also have "\<dots> = length (map fst (participants (snd (getParticipantCount 400000 mixed_room))))"
    by simp
  also have "\<dots> = 1"
    unfolding w3 by simp
  finally have w5: "fst (getParticipantCount 400000 mixed_room) = 1" .
  have jl: "\<forall>q \<in> set join_leave_history. join_or_leave (snd q)"
    by (simp add: join_leave_history_def)
  have jl': "list_all join_or_leave (map snd join_leave_history)"
    by (simp add: join_leave_history_def)
  have mono: "sorted (0 # map fst join_leave_history @ [300005])"
    by (simp add: join_leave_history_def)
  have s: "spec_sessions 0 ''s1'' join_leave_history = [(''s1'', 0), (''s3'', 20)]"
    by code_simp
  have c: "spec_live_count 300005 (spec_sessions 0 ''s1'' join_leave_history) = 1"
    by code_simp
  have "fst (getParticipantCount 300005
          (room_after 0 ''ROOM'' ''s1'' ''ua'' ''ip'' join_leave_history)) =
        spec_live_count 300005 (spec_sessions 0 ''s1'' join_leave_history)"
    using t' [THEN conjunct2, THEN conjunct2] jl mono by blast
  then have w6: "fst (getParticipantCount 300005
          (room_after 0 ''ROOM'' ''s1'' ''ua'' ''ip'' join_leave_history)) = 1"
    unfolding c .
  from d w1 w2 w3 w4 w5 jl' mono s c w6 show ?thesis by blast
qed

section \<open>Players of other sessions\<close>

text \<open>
  Claim C9. \<^verbatim>\<open>updatePlayerData\<close> for session \<open>a\<close>, whatever it is given and whether
  or not it throws, leaves the entries of all other sessions as they were, in the same
  order: the players map without \<open>a\<close> is the same before and after.
\<close>

theorem updatePlayerData_frame:
  "map_delete a (players (snd (updatePlayerData now a arg r))) = map_delete a (players r) \<and>
   (\<forall>b. b \<noteq> a \<longrightarrow>
      map_get (players (snd (updatePlayerData now a arg r))) b = map_get (players r) b)"
proof (intro conjI allI impI)
  show "map_delete a (players (snd (updatePlayerData now a arg r))) = map_delete a (players r)"
    by (cases arg)
      (simp_all add: updatePlayerData_def Let_def AList.delete_update_same AList.delete_idem)
next
  fix b assume "b \<noteq> a"
  then show "map_get (players (snd (updatePlayerData now a arg r))) b = map_get (players r) b"
    by (rule map_of_updatePlayerData_other)
qed

theorem updatePlayerData_frame_witness:
  "''s2'' \<noteq> ''s1'' \<and>
   map_get (players two_rosters) ''s2'' =
     Some [ann\<lparr> player_sessionId := Some ''s2'', isActive := True, lastUpdated := Some 2 \<rparr>] \<and>
   map_get (players (snd (updatePlayerData 3 ''s1'' (PlayersArray []) two_rosters))) ''s2'' =
     Some [ann\<lparr> player_sessionId := Some ''s2'', isActive := True, lastUpdated := Some 2 \<rparr>] \<and>
   map_get (players (snd (updatePlayerData 3 ''s1'' (PlayersArray []) two_rosters))) ''s1'' = None"
proof -
  have ne: "''s2'' \<noteq> ''s1''" by simp
  have before: "map_get (players two_rosters) ''s2'' =
     Some [ann\<lparr> player_sessionId := Some ''s2'', isActive := True, lastUpdated := Some 2 \<rparr>]"
    by code_simp
  have own: "map_get (players (snd (updatePlayerData 3 ''s1'' (PlayersArray []) two_rosters))) ''s1'' = None"
    by code_simp
  have "\<forall>b. b \<noteq> ''s1'' \<longrightarrow>
      map_get (players (snd (updatePlayerData 3 ''s1'' (PlayersArray []) two_rosters))) b =
      map_get (players two_rosters) b"
    using updatePlayerData_frame [of "''s1''" 3 "PlayersArray []" two_rosters]
    by (rule conjunct2)
  then have "''s2'' \<noteq> ''s1'' \<longrightarrow>
      map_get (players (snd (updatePlayerData 3 ''s1'' (PlayersArray []) two_rosters))) ''s2'' =
      map_get (players two_rosters) ''s2''"
    by (rule spec)
  then have same: "map_get (players (snd (updatePlayerData 3 ''s1'' (PlayersArray []) two_rosters))) ''s2'' =
      map_get (players two_rosters) ''s2''"
    using ne by (rule mp)
  show ?thesis
    unfolding same before own using ne by simp
qed

section \<open>Backoff of the polling client\<close>

text \<open>
  Claim C10, evaluated. The client enters a room and arms its timer with the period
  2000. A failed poll sets \<open>pollDelay\<close> to 3000, and the timer keeps the period 2000:
  \<^verbatim>\<open>setInterval\<close> read \<open>pollDelay\<close> once, in \<^verbatim>\<open>startPolling\<close>, and the callback does
  not arm it again. In the first client a successful poll after the failure leaves
  \<open>pollDelay\<close> at 3000. A client that leaves after the failure and enters a room again
  arms the timer with 3000, and its next successful poll resets \<open>pollDelay\<close> and not
  the timer.
\<close>

theorem backoff_keeps_running_timer:
  "pollInterval polling_client = Some 2000 \<and>
   pollDelay (poll_tick RequestFailed polling_client) = 3000 \<and>
   pollInterval (poll_tick RequestFailed polling_client) = Some 2000 \<and>
   pollInterval (poll_tick RequestFailed (poll_tick RequestFailed polling_client)) = Some 2000 \<and>
   pollDelay (poll_tick_first (Reply True some_reply)
     (poll_tick_first RequestFailed polling_client)) = 3000 \<and>
   pollInterval (entered_room ''ROOM'' ''s2'' 1 0
     (leaveRoom (poll_tick RequestFailed polling_client))) = Some 3000 \<and>
   pollDelay (poll_tick (Reply True some_reply) (entered_room ''ROOM'' ''s2'' 1 0
     (leaveRoom (poll_tick RequestFailed polling_client)))) = 2000 \<and>
   pollInterval (poll_tick (Reply True some_reply) (entered_room ''ROOM'' ''s2'' 1 0
     (leaveRoom (poll_tick RequestFailed polling_client)))) = Some 3000"
  by (simp add: polling_client_def entered_room_def startPolling_def stopPolling_def
      leaveRoom_def new_client_def poll_tick_def poll_tick_first_def)

section \<open>Further properties of the code\<close>

text \<open>
  What \<^verbatim>\<open>updatePlayerData\<close> does with a non-empty array: the caller's entry moves to the
  end of the map; every record is stored active when fewer than four players of other
  sessions are active, and keeps the flag it came with otherwise. The number of active
  players afterwards follows, and nothing bounds it by four.
\<close>

theorem updatePlayerData_activation:
  assumes "ps \<noteq> []"
  shows "(let others = length (filter isActive (concat (map_values (map_delete sid (players r)))));
              (err, r') = updatePlayerData now sid (PlayersArray ps) r
          in err = None \<and>
             players r' =
               map_delete sid (players r) @
                 [(sid, map (\<lambda>playerData.
                               playerData\<lparr> player_sessionId := Some sid,
                                           isActive := (others < 4 \<or> isActive playerData),
                                           lastUpdated := Some now \<rparr>) ps)] \<and>
             getActivePlayerCount r' =
               others + (if others < 4 then length ps else length (filter isActive ps)))"
proof -
  let ?others = "length (filter isActive (concat (map_values (map_delete sid (players r)))))"
  let ?upd = "map (\<lambda>playerData.
                     playerData\<lparr> player_sessionId := Some sid,
                                 isActive := (?others < 4 \<or> isActive playerData),
                                 lastUpdated := Some now \<rparr>) ps"
  have u: "updatePlayerData now sid (PlayersArray ps) r =
             (None, r\<lparr> players := map_delete sid (players r) @ [(sid, ?upd)],
                       lastActivity := now \<rparr>)"
    using assms by (simp add: updatePlayerData_def Let_def map_set_after_delete)
  have f: "length (filter isActive ?upd) =
             (if ?others < 4 then length ps else length (filter isActive ps))"
    by (induction ps) auto
  have cnt: "getActivePlayerCount
               (r\<lparr> players := map_delete sid (players r) @ [(sid, ?upd)], lastActivity := now \<rparr>) =
             ?others + length (filter isActive ?upd)"
    by (simp add: getActivePlayerCount_def getPlayerData_def)
  show ?thesis
    unfolding Let_def u prod.case cnt f by simp
qed

theorem updatePlayerData_activation_witness:
  "[ann] \<noteq> [] \<and>
   getActivePlayerCount four_active = 4 \<and>
   getActivePlayerCount (snd (updatePlayerData 2 ''s5'' (PlayersArray [ann]) four_active)) = 5"
proof -
  have o: "length (filter isActive (concat (map_values (map_delete ''s5'' (players four_active))))) = 4"
    by code_simp
  have n: "getActivePlayerCount four_active = 4"
    by code_simp
  have a: "isActive ann"
    by (simp add: ann_def)
  show ?thesis
    using updatePlayerData_activation [of "[ann]" "''s5''" four_active 2] n a
    by (simp add: Let_def case_prod_unfold o)
qed

text \<open>
  Through the endpoints of \<^verbatim>\<open>exports.handler\<close> no player is ever stored: after any
  sequence of requests the players map of a room is empty and no player is active.
\<close>

theorem handler_stores_no_player:
  "players (room_after t0 rid sid0 ua addr reqs) = [] \<and>
   getActivePlayerCount (room_after t0 rid sid0 ua addr reqs) = 0"
proof -
  have c: "players (snd (handle_create_room t0 rid sid0 ua addr)) = []"
  proof -
    have "snd (handle_create_room t0 rid sid0 ua addr) =
            snd (getParticipantCount t0 (addParticipant t0 sid0 ua addr (new_Room t0 rid)))"
      by (simp add: handle_create_room_def Let_def case_prod_unfold)
    then show ?thesis
      by (simp add: players_purge_empty addParticipant_def new_Room_def)
  qed
  have "players (fold serve reqs r) = []" if "players r = []" for r
    using that by (induction reqs arbitrary: r) (simp_all add: players_serve_empty)
  then have "players (room_after t0 rid sid0 ua addr reqs) = []"
    unfolding room_after_def serve_all_def using c by blast
  then show ?thesis
    by (simp add: getActivePlayerCount_def getPlayerData_def)
qed

text \<open>
  The \<^verbatim>\<open>/sync-players\<close> body that passes the array on, as a whole: the players of
  another session are as before, or that session was last seen more than five minutes
  ago and the purge of the reply removed them.
\<close>

theorem sync_players_endpoint_frame:
  assumes "b \<noteq> a"
  shows "(let r' = snd (sync_players_endpoint now rnd a arg r)
          in map_get (players r') b = map_get (players r) b \<or>
             (map_get (players r') b = None \<and>
              (\<exists>p. (b, p) \<in> set (participants r) \<and> lastSeen p < now - 5 * 60 * 1000)))"
proof -
  let ?r1 = "updateParticipant now a r"
  obtain e r2 where u: "updatePlayerData now a arg ?r1 = (e, r2)"
    by (cases "updatePlayerData now a arg ?r1")
  have p2: "map_get (players r2) b = map_get (players r) b"
    using map_of_updatePlayerData_other [OF assms, of now arg ?r1] u by simp
  have part2: "participants r2 = participants ?r1"
    using participants_updatePlayerData [of now a arg ?r1] u by simp
  show ?thesis
  proof (cases e)
    case (Some err)
    then show ?thesis
      using u p2 by (simp add: sync_players_endpoint_def Let_def)
  next
    case None
    let ?r3 = "addMessage now rnd (PlayersUpdate (getPlayerData r2)) a r2"
    have s: "snd (sync_players_endpoint now rnd a arg r) = snd (getParticipantCount now ?r3)"
      using u None by (simp add: sync_players_endpoint_def Let_def case_prod_unfold)
    have p3: "map_get (players ?r3) b = map_get (players r) b"
      using p2 by simp
    have part3: "participants ?r3 = participants ?r1"
      using part2 by simp
    from map_get_players_purge [of now ?r3 b]
    show ?thesis
      unfolding Let_def s p3 part3
      using stale_updateParticipant_other [OF assms] by blast
  qed
qed


theorem sync_players_endpoint_frame_witness:
  "''s2'' \<noteq> ''s1'' \<and>
   map_get (players stale_room) ''s2'' =
     Some [ann\<lparr> player_sessionId := Some ''s2'', isActive := True, lastUpdated := Some 1 \<rparr>] \<and>
   map_get (players (snd (sync_players_endpoint 400000 0 ''s1'' (PlayersArray [ann]) stale_room)))
     ''s2'' = None \<and>
   (\<exists>p. (''s2'', p) \<in> set (participants stale_room) \<and> lastSeen p < 400000 - 5 * 60 * 1000)"
proof -
  have ne: "''s2'' \<noteq> ''s1''" by simp
  have before: "map_get (players stale_room) ''s2'' =
     Some [ann\<lparr> player_sessionId := Some ''s2'', isActive := True, lastUpdated := Some 1 \<rparr>]"
    by code_simp
  have after: "map_get (players (snd (sync_players_endpoint 400000 0 ''s1'' (PlayersArray [ann])
      stale_room))) ''s2'' = None"
    by code_simp
  have "map_get (players (snd (sync_players_endpoint 400000 0 ''s1'' (PlayersArray [ann])
          stale_room))) ''s2'' = map_get (players stale_room) ''s2'' \<or>
        (map_get (players (snd (sync_players_endpoint 400000 0 ''s1'' (PlayersArray [ann])
          stale_room))) ''s2'' = None \<and>
         (\<exists>p. (''s2'', p) \<in> set (participants stale_room) \<and> lastSeen p < 400000 - 5 * 60 * 1000))"
    using sync_players_endpoint_frame [OF ne, of 400000 0 "PlayersArray [ann]" stale_room]
    unfolding Let_def .
  then have "\<exists>p. (''s2'', p) \<in> set (participants stale_room) \<and> lastSeen p < 400000 - 5 * 60 * 1000"
    unfolding after before by simp
  with ne before after show ?thesis by simp
qed

text \<open>
  One tick of a client that is in a room: a failed request, or a callback that throws,
  multiplies \<open>pollDelay\<close> by 1.5 up to 10000; a successful reply resets it to 2000 in the player-management client
  and leaves it in the first client; no tick changes the period of the running timer.
\<close>

theorem poll_tick_delay:
  assumes "\<not> falsy_str (currentRoomId c)" and "\<not> falsy_str (client_sessionId c)"
  shows "pollDelay (poll_tick RequestFailed c) = min (pollDelay c * 1.5) 10000 \<and>
         pollDelay (poll_tick (Reply True reply) c) = 2000 \<and>
         pollDelay (poll_tick (Reply False reply) c) = pollDelay c \<and>
         pollDelay (poll_tick_first RequestFailed c) = min (pollDelay c * 1.5) 10000 \<and>
         pollDelay (poll_tick_first (Reply True reply) c) = pollDelay c \<and>
         pollDelay (poll_tick (CallbackThrew reply) c) = min (pollDelay c * 1.5) 10000 \<and>
         pollDelay (poll_tick_first (CallbackThrew reply) c) = min (pollDelay c * 1.5) 10000 \<and>
         pollInterval (poll_tick res c) = pollInterval c \<and>
         pollInterval (poll_tick_first res c) = pollInterval c"
proof -
  show ?thesis
    using assms by (cases res) (simp_all add: poll_tick_def poll_tick_first_def)
qed

theorem poll_tick_delay_witness:
  "\<not> falsy_str (currentRoomId polling_client) \<and>
   \<not> falsy_str (client_sessionId polling_client) \<and>
   pollDelay (poll_tick RequestFailed polling_client) = 3000 \<and>
   pollDelay (poll_tick (Reply True some_reply) (poll_tick RequestFailed polling_client)) = 2000"
proof -
  have a: "\<not> falsy_str (currentRoomId polling_client)"
    "\<not> falsy_str (client_sessionId polling_client)"
    by (simp_all add: polling_client_def entered_room_def startPolling_def)
  have b: "\<not> falsy_str (currentRoomId (poll_tick RequestFailed polling_client))"
    "\<not> falsy_str (client_sessionId (poll_tick RequestFailed polling_client))"
    by (simp_all add: poll_tick_def polling_client_def entered_room_def startPolling_def)
  have d: "pollDelay polling_client = 2000"
    by (simp add: polling_client_def entered_room_def startPolling_def new_client_def)
  have t1: "pollDelay (poll_tick RequestFailed polling_client) =
              min (pollDelay polling_client * 1.5) 10000"
    using poll_tick_delay [OF a, of some_reply RequestFailed] by (rule conjunct1)
  have t2: "pollDelay (poll_tick (Reply True some_reply) (poll_tick RequestFailed polling_client)) =
              2000"
    using poll_tick_delay [OF b, of some_reply RequestFailed] by (rule conjunct2 [THEN conjunct1])
  have "pollDelay (poll_tick RequestFailed polling_client) = 3000"
    unfolding t1 d by simp
  with a t2 show ?thesis by simp
qed

end
